theory Spec2Isabelle
  imports Main
begin

section \<open>The indentation parser of plugins/module\_utils/pacemaker\_helper.py\<close>

text \<open>
  The theory embeds the three functions of \<^verbatim>\<open>pacemaker_helper.py\<close> that turn the
  text printed by \<^verbatim>\<open>pcs resource config\<close> into nested dictionaries:
  \<^verbatim>\<open>_count_indentation\<close>, \<^verbatim>\<open>_add_ansibilized_section\<close> and
  \<^verbatim>\<open>ansibilize_resource\<close>. An Isabelle name cannot start with an underscore, so the
  first two are \<open>count_indentation\<close> and \<open>add_ansibilized_section\<close> here.

  Four remarks on how the source is read.
  \<^item> Line 37 of the file, the \<^verbatim>\<open>return\<close> of the \<^verbatim>\<open>else\<close> branch, opens two
    dictionary displays and closes one. As it stands the file is rejected by the Python
    parser: the module cannot be imported and none of its functions can be called. To have
    functions to speak of, the embedding reads the file with one closing brace added to
    line 37. There are three places where one brace makes the line a statement, and they
    give three different statements; the embedding has all three and a parameter that
    selects one (\<open>brace\<close> below). Every property proved below is proved for all three,
    unless its statement names the placement.
  \<^item> \<^verbatim>\<open>python -O\<close> does not compile \<^verbatim>\<open>assert\<close> statements. Whether line 32 is
    executed is the second parameter of the embedding (\<open>optimize\<close> below).
  \<^item> The interpreter's limit on the depth of the call stack
    (\<^verbatim>\<open>sys.getrecursionlimit()\<close>, beyond which a call raises \<^verbatim>\<open>RecursionError\<close>) is
    not part of \<open>add_ansibilized_section\<close>, which is the recursion on a stack without a
    limit. \<open>add_section_fuel\<close> is the recursion on a stack of a given depth.
  \<^item> A Python \<^verbatim>\<open>str\<close> is a sequence of code points; \<open>string\<close> is a list of 8-bit
    characters. The embedding covers the texts whose code points are below 256.
\<close>

subsection \<open>Values, exceptions and the global namespace\<close>

text \<open>
  The values the parser builds: strings, and dictionaries with string keys, as
  association lists in the order of insertion.
\<close>

datatype pyval = PStr string | PDict "(string \<times> pyval) list"

text \<open>
  The exceptions an execution can end with. The first five are Python's built-in classes;
  \<open>CustomError n\<close> stands for an exception of a class named \<open>n\<close> defined by the program
  itself. The module defines no exception class and has no \<^verbatim>\<open>raise\<close> statement.
\<close>

datatype error =
    IndexError
  | NameError
  | TypeError
  | AssertionError
  | ValueError
  | CustomError string

text \<open>
  \<^verbatim>\<open>_count_indentation\<close> reads the name \<^verbatim>\<open>s\<close>, which is neither its parameter nor a
  local. Python resolves such a name in the module's global namespace at the time of the
  call, then among the built-ins (which have no \<^verbatim>\<open>s\<close>), and raises \<^verbatim>\<open>NameError\<close>
  when it is unbound. The global namespace is therefore an
  explicit argument: a map from names to the values bound to them. \<open>module_globals\<close> is
  the namespace as the module's own top-level statements leave it, as far as \<open>pyval\<close>
  can represent it: those statements bind modules, functions and \<^verbatim>\<open>__metaclass__\<close>,
  none of them under the name \<^verbatim>\<open>s\<close>.
\<close>

type_synonym globals = "string \<rightharpoonup> pyval"

definition module_globals :: globals where
  "module_globals = Map.empty"

subsection \<open>String operations of the Python library\<close>

text \<open>
  \<^verbatim>\<open>\s\<close> in a \<^verbatim>\<open>str\<close> pattern matches the characters for which \<^verbatim>\<open>str.isspace\<close>
  holds; below 256 these are the code points listed.
\<close>

definition is_space :: "char \<Rightarrow> bool" where
  "is_space c = ((of_char c :: nat) \<in> set [9, 10, 11, 12, 13, 28, 29, 30, 31, 32, 133, 160])"

text \<open>\<^verbatim>\<open>t.split(c)\<close> for a separator of one character: the pieces between all occurrences.\<close>

fun split_on :: "char \<Rightarrow> string \<Rightarrow> string list" where
  "split_on c [] = [[]]"
| "split_on c (x # xs) =
     (if x = c then [] # split_on c xs
      else (case split_on c xs of
              [] \<Rightarrow> [[x]]
            | p # ps \<Rightarrow> (x # p) # ps))"

text \<open>\<^verbatim>\<open>line.startswith(p)\<close>.\<close>

definition startswith :: "string \<Rightarrow> string \<Rightarrow> bool" where
  "startswith line p = (take (length p) line = p)"

subsection \<open>The functions of the module\<close>

text \<open>
  \<^verbatim>\<open>
  def _count_indentation(line):
      match = re.search(r"^\s*", s)
      return 0 if not match else match.end()
  \<close>
  The pattern matches at position 0 of every string (the empty match at least), so
  \<^verbatim>\<open>match\<close> is a match object, which is true, and \<^verbatim>\<open>match.end()\<close> is the length of
  the longest run of whitespace at the start of the searched string. \<^verbatim>\<open>re.search\<close>
  raises \<^verbatim>\<open>TypeError\<close> when the searched object is not a string.
\<close>

definition count_indentation :: "globals \<Rightarrow> string \<Rightarrow> error + nat" where
  "count_indentation g line =
     (case g ''s'' of
        None \<Rightarrow> Inl NameError
      | Some (PStr s) \<Rightarrow> Inr (length (takeWhile is_space s))
      | Some (PDict _) \<Rightarrow> Inl TypeError)"

text \<open>
  \<^verbatim>\<open>name, value = line.split(':')\<close>: the unpacking raises \<^verbatim>\<open>ValueError\<close> unless the
  split has exactly two pieces.
\<close>

definition split_name_value :: "string \<Rightarrow> error + (string \<times> string)" where
  "split_name_value line =
     (case split_on CHR '':'' line of
        [name, value] \<Rightarrow> Inr (name, value)
      | _ \<Rightarrow> Inl ValueError)"

text \<open>
  The three places where one closing brace turns line 37 into a statement:
  \<^descr>[\<open>BraceAtEnd\<close>]
    \<^verbatim>\<open>return {name: {'name':value,'value': _add_ansibilized_section(remainder, next_depth) }}\<close>
  \<^descr>[\<open>BraceAfterValue\<close>]
    \<^verbatim>\<open>return {name: {'name':value},'value': _add_ansibilized_section(remainder, next_depth) }\<close>
  \<^descr>[\<open>BraceBeforeCall\<close>]
    \<^verbatim>\<open>return {name: {'name':value,'value': _add_ansibilized_section}(remainder, next_depth) }\<close>

  The first two call the function on the remainder and put what it returns into a
  dictionary; in the second the two keys of the outer display are equal when the name is
  \<^verbatim>\<open>value\<close>, and the later entry is the one kept. The third is a call of a dictionary,
  which raises \<^verbatim>\<open>TypeError\<close> once the name, the dictionary and the two arguments have
  been evaluated, none of which can fail.
\<close>

datatype brace = BraceAtEnd | BraceAfterValue | BraceBeforeCall

definition display_brace_at_end :: "string \<Rightarrow> string \<Rightarrow> pyval \<Rightarrow> pyval" where
  "display_brace_at_end name value section =
     PDict [(name, PDict [(''name'', PStr value), (''value'', section)])]"

definition display_brace_after_value :: "string \<Rightarrow> string \<Rightarrow> pyval \<Rightarrow> pyval" where
  "display_brace_after_value name value section =
     (if name = ''value'' then PDict [(''value'', section)]
      else PDict [(name, PDict [(''name'', PStr value)]), (''value'', section)])"

text \<open>
  How the file is read and run: whether \<^verbatim>\<open>assert\<close> statements are left out
  (\<^verbatim>\<open>python -O\<close>), and where the missing brace of line 37 stands. \<open>default_mode\<close> is
  the interpreter without options and the brace at the end of the line.
\<close>

record mode =
  optimize :: bool
  line37 :: brace

definition default_mode :: mode where
  "default_mode = \<lparr>optimize = False, line37 = BraceAtEnd\<rparr>"

text \<open>
  \<^verbatim>\<open>
  def _add_ansibilized_section(resource_string_array, current_depth):
      line = resource_string_array[0]
      remainder = resource_string_array[1:]
      next_depth = _count_indentation(resource_string_array[1])

      assert line.startswith(' '*current_depth)
      name, value = line.split(':')
      if len(value) == 0:
          return {name: _add_ansibilized_section(remainder, next_depth) }
      else:
          return {name: {'name':value,'value': _add_ansibilized_section(remainder, next_depth) }
  \<close>
  \<^verbatim>\<open>current_depth\<close> is 0 or the result of \<^verbatim>\<open>match.end()\<close>, a natural number. The
  statements are executed in the order written, so the exception of the first one that
  fails is the result. The last line is line 37, read as \<open>line37 m\<close> says.
\<close>

fun add_ansibilized_section :: "mode \<Rightarrow> globals \<Rightarrow> string list \<Rightarrow> nat \<Rightarrow> error + pyval" where
  "add_ansibilized_section m g [] current_depth = Inl IndexError"
| "add_ansibilized_section m g (line # remainder) current_depth =
     (case remainder of
        [] \<Rightarrow> Inl IndexError
      | second # _ \<Rightarrow>
          (case count_indentation g second of
             Inl e \<Rightarrow> Inl e
           | Inr next_depth \<Rightarrow>
               if \<not> optimize m \<and> \<not> startswith line (replicate current_depth CHR '' '')
               then Inl AssertionError
               else
                 (case split_name_value line of
                    Inl e \<Rightarrow> Inl e
                  | Inr (name, value) \<Rightarrow>
                      if length value = 0 then
                        (case add_ansibilized_section m g remainder next_depth of
                           Inl e \<Rightarrow> Inl e
                         | Inr section \<Rightarrow> Inr (PDict [(name, section)]))
                      else
                        (case line37 m of
                           BraceAtEnd \<Rightarrow>
                             (case add_ansibilized_section m g remainder next_depth of
                                Inl e \<Rightarrow> Inl e
                              | Inr section \<Rightarrow> Inr (display_brace_at_end name value section))
                         | BraceAfterValue \<Rightarrow>
                             (case add_ansibilized_section m g remainder next_depth of
                                Inl e \<Rightarrow> Inl e
                              | Inr section \<Rightarrow>
                                  Inr (display_brace_after_value name value section))
                         | BraceBeforeCall \<Rightarrow> Inl TypeError))))"

text \<open>
  \<^verbatim>\<open>
  def ansibilize_resource(resource_string):
      return _add_ansibilized_section(resource_string.split('\n'), 0)
  \<close>
\<close>

definition ansibilize_resource :: "mode \<Rightarrow> globals \<Rightarrow> string \<Rightarrow> error + pyval" where
  "ansibilize_resource m g resource_string =
     add_ansibilized_section m g (split_on (CHR 0x0A) resource_string) 0"

subsection \<open>One call, and the recursion with a bound on its depth\<close>

text \<open>
  \<open>add_section_body\<close> is the body of \<^verbatim>\<open>_add_ansibilized_section\<close> with the call of the
  function to itself replaced by the parameter \<open>self\<close>; \<open>None\<close> stands for a call that
  has not returned. It is what one activation of the function does, given what the nested
  activation does.
\<close>

definition add_section_body ::
  "(string list \<Rightarrow> nat \<Rightarrow> (error + pyval) option) \<Rightarrow> mode \<Rightarrow> globals \<Rightarrow> string list \<Rightarrow> nat
     \<Rightarrow> (error + pyval) option" where
  "add_section_body self m g resource_string_array current_depth =
     (case resource_string_array of
        [] \<Rightarrow> Some (Inl IndexError)
      | line # remainder \<Rightarrow>
          (case remainder of
             [] \<Rightarrow> Some (Inl IndexError)
           | second # _ \<Rightarrow>
               (case count_indentation g second of
                  Inl e \<Rightarrow> Some (Inl e)
                | Inr next_depth \<Rightarrow>
                    if \<not> optimize m \<and> \<not> startswith line (replicate current_depth CHR '' '')
                    then Some (Inl AssertionError)
                    else
                      (case split_name_value line of
                         Inl e \<Rightarrow> Some (Inl e)
                       | Inr (name, value) \<Rightarrow>
                           if length value = 0 then
                             (case self remainder next_depth of
                                None \<Rightarrow> None
                              | Some (Inl e) \<Rightarrow> Some (Inl e)
                              | Some (Inr section) \<Rightarrow> Some (Inr (PDict [(name, section)])))
                           else
                             (case line37 m of
                                BraceAtEnd \<Rightarrow>
                                  (case self remainder next_depth of
                                     None \<Rightarrow> None
                                   | Some (Inl e) \<Rightarrow> Some (Inl e)
                                   | Some (Inr section) \<Rightarrow>
                                       Some (Inr (display_brace_at_end name value section)))
                              | BraceAfterValue \<Rightarrow>
                                  (case self remainder next_depth of
                                     None \<Rightarrow> None
                                   | Some (Inl e) \<Rightarrow> Some (Inl e)
                                   | Some (Inr section) \<Rightarrow>
                                       Some (Inr (display_brace_after_value name value section)))
                              | BraceBeforeCall \<Rightarrow> Some (Inl TypeError))))))"

text \<open>
  The recursion with at most \<open>n\<close> activations of the function on the call stack: an
  activation that would be number \<open>n + 1\<close> does not return.
\<close>

primrec add_section_fuel ::
  "nat \<Rightarrow> mode \<Rightarrow> globals \<Rightarrow> string list \<Rightarrow> nat \<Rightarrow> (error + pyval) option" where
  "add_section_fuel 0 = (\<lambda>m g resource_string_array current_depth. None)"
| "add_section_fuel (Suc n) =
     (\<lambda>m g resource_string_array current_depth.
        add_section_body (add_section_fuel n m g) m g resource_string_array current_depth)"

definition ansibilize_resource_fuel ::
  "nat \<Rightarrow> mode \<Rightarrow> globals \<Rightarrow> string \<Rightarrow> (error + pyval) option" where
  "ansibilize_resource_fuel n m g resource_string =
     add_section_fuel n m g (split_on (CHR 0x0A) resource_string) 0"

text \<open>
  The global namespace of the module after some other code has bound the name \<^verbatim>\<open>s\<close> in
  it to the string \<open>t\<close> (\<^verbatim>\<open>pacemaker_helper.s = t\<close>).
\<close>

definition globals_with_s :: "string \<Rightarrow> globals" where
  "globals_with_s t = module_globals(''s'' \<mapsto> PStr t)"

section \<open>Properties\<close>

subsection \<open>Auxiliary facts\<close>

text \<open>No function of the module ends with an exception of a class of the program's own.\<close>

lemma count_indentation_not_custom: "count_indentation g line \<noteq> Inl (CustomError n)"
  by (simp add: count_indentation_def split: option.split pyval.split)

lemma split_name_value_not_custom: "split_name_value line \<noteq> Inl (CustomError n)"
  by (simp add: split_name_value_def split: list.split)

text \<open>
  A call never returns a value: every activation reads element 1 of its array before it
  branches, and each branch calls the function on the tail or raises.
\<close>

lemma add_section_raises: "\<exists>e. add_ansibilized_section m g arr d = Inl e"
proof (induction arr arbitrary: d)
  case Nil
  show ?case by simp
next
  case (Cons line remainder)
  show ?case
  proof (cases remainder)
    case Nil
    then show ?thesis by simp
  next
    case (Cons second rest)
    have nested: "\<exists>e. add_ansibilized_section m g remainder k = Inl e" for k
      by (rule Cons.IH)
    show ?thesis
    proof (cases "count_indentation g second")
      case (Inl e)
      with Cons show ?thesis by simp
    next
      case (Inr next_depth)
      from nested [of next_depth] obtain e
        where e: "add_ansibilized_section m g (second # rest) next_depth = Inl e"
        using Cons by auto
      show ?thesis using Cons Inr e
        by (simp split: sum.split prod.split brace.split)
    qed
  qed
qed

lemma add_section_short:
  "length arr < 2 \<Longrightarrow> add_ansibilized_section m g arr d = Inl IndexError"
  by (cases arr; cases "tl arr") auto

lemma add_section_not_custom: "add_ansibilized_section m g arr d \<noteq> Inl (CustomError n)"
proof (induction arr arbitrary: d)
  case Nil
  show ?case by simp
next
  case (Cons line remainder)
  show ?case
  proof (cases remainder)
    case Nil
    then show ?thesis by simp
  next
    case (Cons second rest)
    have nested: "add_ansibilized_section m g (second # rest) k \<noteq> Inl (CustomError n)" for k
      using Cons.IH Cons by simp
    show ?thesis using Cons nested count_indentation_not_custom [of g second n]
        split_name_value_not_custom [of line n]
      by (auto split: sum.split prod.split brace.split)
  qed
qed

text \<open>
  The recursive function is its body applied to itself, and a stack of as many
  activations as the array has elements is enough for it.
\<close>

lemma body_unfold:
  "add_section_body (\<lambda>a k. Some (add_ansibilized_section m g a k)) m g arr d
     = Some (add_ansibilized_section m g arr d)"
  by (cases arr; cases "tl arr")
     (auto simp: add_section_body_def split: sum.split prod.split brace.split)

lemma fuel_enough:
  "0 < n \<Longrightarrow> length arr \<le> n \<Longrightarrow>
     add_section_fuel n m g arr d = Some (add_ansibilized_section m g arr d)"
proof (induction n arbitrary: arr d)
  case 0
  then show ?case by simp
next
  case (Suc n)
  show ?case
  proof (cases arr)
    case Nil
    then show ?thesis by (simp add: add_section_body_def)
  next
    case outer: (Cons line remainder)
    show ?thesis
    proof (cases remainder)
      case Nil
      with outer show ?thesis by (simp add: add_section_body_def)
    next
      case (Cons second rest)
      with outer Suc.prems have "0 < n" and "length remainder \<le> n" by auto
      then have "add_section_fuel n m g remainder k
          = Some (add_ansibilized_section m g remainder k)" for k
        by (rule Suc.IH)
      with outer Cons show ?thesis
        by (simp add: add_section_body_def split: sum.split prod.split brace.split)
    qed
  qed
qed

text \<open>
  On a stack of any depth a call either runs out of stack or ends as on the stack
  without a limit; so it returns no section either.
\<close>

lemma fuel_result:
  "add_section_fuel n m g arr d = None
   \<or> add_section_fuel n m g arr d = Some (add_ansibilized_section m g arr d)"
proof (induction n arbitrary: arr d)
  case 0
  show ?case by simp
next
  case (Suc n)
  show ?case
  proof (cases arr)
    case Nil
    then show ?thesis by (simp add: add_section_body_def)
  next
    case outer: (Cons line remainder)
    show ?thesis
    proof (cases remainder)
      case Nil
      with outer show ?thesis by (simp add: add_section_body_def)
    next
      case (Cons second rest)
      note unfold = add_ansibilized_section.simps(2) [of m g line "second # rest" d]
      show ?thesis
      proof (cases "count_indentation g second")
        case (Inl e)
        with outer Cons show ?thesis by (simp add: add_section_body_def)
      next
        case (Inr next_depth)
        from Suc.IH [of "second # rest" next_depth] show ?thesis
        proof
          assume "add_section_fuel n m g (second # rest) next_depth = None"
          with outer Cons Inr show ?thesis
            by (simp add: add_section_body_def unfold del: add_ansibilized_section.simps
                  split: sum.split prod.split brace.split)
        next
          assume "add_section_fuel n m g (second # rest) next_depth
                    = Some (add_ansibilized_section m g (second # rest) next_depth)"
          with outer Cons Inr show ?thesis
            by (simp add: add_section_body_def unfold del: add_ansibilized_section.simps
                  split: sum.split prod.split brace.split)
        qed
      qed
    qed
  qed
qed

lemma fuel_never_section: "add_section_fuel n m g arr d \<noteq> Some (Inr section)"
  using fuel_result [of n m g arr d] add_section_raises [of m g arr d] by auto

text \<open>Facts about \<open>split_on\<close>.\<close>

lemma split_on_nonempty: "split_on c xs \<noteq> []"
  by (induction xs) (auto split: list.split)

lemma split_on_absent: "c \<notin> set xs \<Longrightarrow> split_on c xs = [xs]"
  by (induction xs) auto

lemma split_on_first:
  "split_on c xs = takeWhile (\<lambda>x. x \<noteq> c) xs #
     (case dropWhile (\<lambda>x. x \<noteq> c) xs of [] \<Rightarrow> [] | _ # r \<Rightarrow> split_on c r)"
  by (induction xs) (auto split: list.split)

lemma split_on_length: "length (split_on c xs) = Suc (count_list xs c)"
  by (induction xs) (auto split: list.split)

text \<open>The body consults the nested activation on the tail of its array only.\<close>

lemma body_tail_only:
  "(\<forall>k. self (tl arr) k = self' (tl arr) k) \<Longrightarrow>
     add_section_body self m g arr d = add_section_body self' m g arr d"
  by (cases arr; cases "tl arr")
     (auto simp: add_section_body_def split: sum.split prod.split brace.split)

text \<open>
  What a call on a line with a following line comes to, on the stack without a limit and
  on a stack of \<open>n + 1\<close> activations. As the nested call returns no section, the two
  dictionary displays of lines 35 and 37 are never built.
\<close>

lemma add_section_step:
  "add_ansibilized_section m g (line # second # rest) d =
     (case count_indentation g second of
        Inl e \<Rightarrow> Inl e
      | Inr next_depth \<Rightarrow>
          if \<not> optimize m \<and> \<not> startswith line (replicate d CHR '' '') then Inl AssertionError
          else
            (case split_name_value line of
               Inl e \<Rightarrow> Inl e
             | Inr (name, value) \<Rightarrow>
                 if value \<noteq> [] \<and> line37 m = BraceBeforeCall then Inl TypeError
                 else add_ansibilized_section m g (second # rest) next_depth))"
proof (cases "count_indentation g second")
  case (Inl e)
  then show ?thesis by simp
next
  case (Inr next_depth)
  obtain e where "add_ansibilized_section m g (second # rest) next_depth = Inl e"
    using add_section_raises by blast
  with Inr show ?thesis
    by (simp add: add_ansibilized_section.simps(2) [of m g line "second # rest" d]
          del: add_ansibilized_section.simps split: sum.split prod.split brace.split)
qed

lemma add_section_fuel_step:
  "add_section_fuel (Suc n) m g (line # second # rest) d =
     (case count_indentation g second of
        Inl e \<Rightarrow> Some (Inl e)
      | Inr next_depth \<Rightarrow>
          if \<not> optimize m \<and> \<not> startswith line (replicate d CHR '' '')
          then Some (Inl AssertionError)
          else
            (case split_name_value line of
               Inl e \<Rightarrow> Some (Inl e)
             | Inr (name, value) \<Rightarrow>
                 if value \<noteq> [] \<and> line37 m = BraceBeforeCall then Some (Inl TypeError)
                 else add_section_fuel n m g (second # rest) next_depth))"
proof -
  have nested: "add_section_fuel n m g (second # rest) k = None
      \<or> (\<exists>e. add_section_fuel n m g (second # rest) k = Some (Inl e))" for k
    using fuel_result [of n m g "second # rest" k] add_section_raises [of m g "second # rest" k]
    by auto
  have same: "(case add_section_fuel n m g (second # rest) k of
                 None \<Rightarrow> None
               | Some (Inl e) \<Rightarrow> Some (Inl e)
               | Some (Inr section) \<Rightarrow> Some (Inr (f section)))
              = add_section_fuel n m g (second # rest) k" for k f
    using nested [of k] by auto
  show ?thesis
    by (simp add: add_section_body_def same split: sum.split prod.split brace.split)
qed

subsection \<open>The two examples of a successful parse (claims C1 and C2)\<close>

text \<open>
  Claim C1 says that the parse of the single line \<^verbatim>\<open>"foo:bar"\<close> returns
  \<^verbatim>\<open>{"foo": "bar"}\<close>. The code returns nothing for it: the array of lines has one
  element, and \<^verbatim>\<open>resource_string_array[1]\<close> is read before the line is looked at, so
  the parse raises \<^verbatim>\<open>IndexError\<close>, whatever the global namespace holds, with or without
  \<^verbatim>\<open>-O\<close> and wherever the brace of line 37 stands.
\<close>

theorem single_leaf_line_raises:
  "ansibilize_resource m g ''foo:bar'' = Inl IndexError
   \<and> ansibilize_resource m g ''foo:bar'' \<noteq> Inr (PDict [(''foo'', PStr ''bar'')])"
  by (simp add: ansibilize_resource_def)

text \<open>
  Claim C2 says that the parse of \<^verbatim>\<open>"foo:"\<close> followed by \<^verbatim>\<open>" bar:baz"\<close> returns
  \<^verbatim>\<open>{"foo": {"name": "", "value": {"bar": "baz"}}}\<close>. The code returns nothing for it:
  on the module's own namespace the first call raises \<^verbatim>\<open>NameError\<close> when it measures
  the second line, and with \<^verbatim>\<open>s\<close> bound to any string the call on the second line
  raises \<^verbatim>\<open>IndexError\<close>, as that line has no successor.
\<close>

theorem two_level_input_raises:
  "ansibilize_resource m module_globals ''foo:\<newline> bar:baz'' = Inl NameError
   \<and> ansibilize_resource m (globals_with_s t) ''foo:\<newline> bar:baz'' = Inl IndexError
   \<and> ansibilize_resource m g ''foo:\<newline> bar:baz''
       \<noteq> Inr (PDict [(''foo'', PDict [(''name'', PStr ''''),
                                       (''value'', PDict [(''bar'', PStr ''baz'')])])])"
proof -
  have "ansibilize_resource m module_globals ''foo:\<newline> bar:baz'' = Inl NameError"
    by (simp add: ansibilize_resource_def count_indentation_def module_globals_def)
  moreover have "ansibilize_resource m (globals_with_s t) ''foo:\<newline> bar:baz'' = Inl IndexError"
    by (simp add: ansibilize_resource_def count_indentation_def globals_with_s_def
        startswith_def split_name_value_def)
  moreover have "\<exists>e. ansibilize_resource m g ''foo:\<newline> bar:baz'' = Inl e"
    unfolding ansibilize_resource_def by (rule add_section_raises)
  ultimately show ?thesis by auto
qed

subsection \<open>No call returns (claim C3)\<close>

text \<open>
  Claim C3: for every input string, and whatever the global namespace holds,
  \<^verbatim>\<open>ansibilize_resource\<close> ends with an exception and returns no value; so does every
  call of \<^verbatim>\<open>_add_ansibilized_section\<close>, and on an array of fewer than two lines the
  exception is the \<^verbatim>\<open>IndexError\<close> of reading element 1 (or element 0 of the empty
  array).
\<close>

theorem ansibilize_resource_never_returns:
  "(\<exists>e. ansibilize_resource m g resource_string = Inl e)
   \<and> (\<exists>e. add_ansibilized_section m g resource_string_array current_depth = Inl e)
   \<and> (length resource_string_array < 2 \<longrightarrow>
        add_ansibilized_section m g resource_string_array current_depth = Inl IndexError)"
  using add_section_raises add_section_short
  by (simp add: ansibilize_resource_def)

text \<open>C3's theorem at the single line \<^verbatim>\<open>"foo:bar"\<close>.\<close>

theorem ansibilize_resource_never_returns_witness:
  "(\<exists>e. ansibilize_resource default_mode module_globals ''foo:bar'' = Inl e)
   \<and> (\<exists>e. add_ansibilized_section default_mode module_globals [''foo:bar''] 0 = Inl e)
   \<and> length [''foo:bar''] < 2
   \<and> add_ansibilized_section default_mode module_globals [''foo:bar''] 0 = Inl IndexError"
  using ansibilize_resource_never_returns
          [of default_mode module_globals "''foo:bar''" "[''foo:bar'']" 0]
  by simp

subsection \<open>The indentation helper (claim C4)\<close>

text \<open>
  Claim C4 says that \<^verbatim>\<open>_count_indentation\<close> returns the leading-whitespace width of
  its argument and depends on nothing else. The code searches the global \<^verbatim>\<open>s\<close>
  instead of its parameter: with the module's own namespace every call raises
  \<^verbatim>\<open>NameError\<close>, and with \<^verbatim>\<open>s\<close> bound to a string the result is the width of that
  string's indentation, whatever the line. For the line \<^verbatim>\<open>" bar:baz"\<close> the claim gives 1;
  the code raises, or gives 4 when \<^verbatim>\<open>s\<close> is four spaces.
\<close>

theorem count_indentation_reads_global:
  "count_indentation module_globals line = Inl NameError
   \<and> count_indentation (globals_with_s t) line = Inr (length (takeWhile is_space t))
   \<and> count_indentation module_globals '' bar:baz'' \<noteq> Inr 1
   \<and> count_indentation (globals_with_s ''    '') '' bar:baz'' = Inr 4"
  by (simp add: count_indentation_def module_globals_def globals_with_s_def is_space_def)

subsection \<open>Splitting a line (claim C5)\<close>

text \<open>
  Claim C5, as the specification states it: the line is split on its first colon only, so
  that \<^verbatim>\<open>"time:12:30"\<close> still gives one name and one value, and the value is trimmed.
  The code splits on every colon and trims nothing: \<^verbatim>\<open>"time:12:30"\<close> has three
  pieces, which the unpacking into two names refuses, and the value of \<^verbatim>\<open>"foo: bar "\<close>
  keeps its spaces.
\<close>

theorem split_first_colon_counterexample:
  "split_name_value ''time:12:30'' = Inl ValueError
   \<and> split_name_value ''foo: bar '' = Inr (''foo'', '' bar '')
   \<and> ansibilize_resource default_mode (globals_with_s '''') ''time:12:30\<newline>x:y'' = Inl ValueError"
  by (simp add: split_name_value_def ansibilize_resource_def count_indentation_def
      globals_with_s_def startswith_def default_mode_def)

text \<open>A line with exactly one colon splits into what stands before it and what follows.\<close>

lemma split_on_one:
  assumes "count_list xs c = 1"
  shows "split_on c xs = [takeWhile (\<lambda>x. x \<noteq> c) xs, tl (dropWhile (\<lambda>x. x \<noteq> c) xs)]"
proof -
  have "length (split_on c xs) = 2"
    using assms by (simp add: split_on_length)
  moreover have "hd (split_on c xs) = takeWhile (\<lambda>x. x \<noteq> c) xs"
    by (subst split_on_first) simp
  ultimately obtain v where v: "split_on c xs = [takeWhile (\<lambda>x. x \<noteq> c) xs, v]"
    by (cases "split_on c xs"; cases "tl (split_on c xs)") auto
  from assms have "c \<in> set xs"
    by (metis count_list_0_iff zero_neq_one)
  then obtain r where r: "dropWhile (\<lambda>x. x \<noteq> c) xs = c # r"
    by (metis (mono_tags, lifting) dropWhile_eq_Nil_conv hd_dropWhile list.collapse)
  have "count_list xs c = count_list (takeWhile (\<lambda>x. x \<noteq> c) xs) c + count_list (c # r) c"
    by (metis count_list_append r takeWhile_dropWhile_id)
  with assms have "count_list r c = 0" by simp
  then have "c \<notin> set r" by (simp add: count_list_0_iff)
  then have "split_on c r = [r]" by (rule split_on_absent)
  with r have "split_on c xs = [takeWhile (\<lambda>x. x \<noteq> c) xs, r]"
    by (subst split_on_first) simp
  with r show ?thesis by simp
qed

text \<open>
  Claim C5, amended: \<^verbatim>\<open>name, value = line.split(':')\<close> succeeds exactly on the lines
  with one colon; the name is the text before the colon (indentation included), the value
  the text after it, unchanged. Every other line raises \<^verbatim>\<open>ValueError\<close>.
\<close>

theorem split_name_value_every_colon:
  "split_name_value line =
     (if count_list line CHR '':'' = 1
      then Inr (takeWhile (\<lambda>x. x \<noteq> CHR '':'') line, tl (dropWhile (\<lambda>x. x \<noteq> CHR '':'') line))
      else Inl ValueError)"
proof (cases "count_list line CHR '':'' = 1")
  case True
  then show ?thesis by (simp add: split_name_value_def split_on_one)
next
  case False
  then have "length (split_on CHR '':'' line) \<noteq> 2"
    by (simp add: split_on_length)
  with False show ?thesis
    by (auto simp: split_name_value_def split: list.split)
qed

subsection \<open>A line with a value is not a leaf (claim C6)\<close>

text \<open>
  Claim C6, as the specification states it: a line with a non-empty value is a leaf
  binding, and its call consumes no line beyond it. On the module as it is, the call on
  the valued line \<^verbatim>\<open>"foo:bar"\<close> ends differently with and without a line after it,
  \<^verbatim>\<open>NameError\<close> from measuring the next line against \<^verbatim>\<open>IndexError\<close> from looking for
  it, and in neither case with the binding of \<^verbatim>\<open>foo\<close> to \<^verbatim>\<open>bar\<close>.
\<close>

theorem valued_line_counterexample:
  "add_ansibilized_section default_mode module_globals [''foo:bar''] 0 = Inl IndexError
   \<and> add_ansibilized_section default_mode module_globals [''foo:bar'', ''baz:qux''] 0
       = Inl NameError
   \<and> ansibilize_resource default_mode module_globals ''foo:bar\<newline>baz:qux''
       \<noteq> Inr (PDict [(''foo'', PStr ''bar'')])"
  by (simp add: ansibilize_resource_def count_indentation_def module_globals_def)

text \<open>
  Claim C6, amended. For a line that splits into a name and a non-empty value, the call
  is no leaf binding and does not stop at its line:
  \<^item> with no line after it, the call raises \<^verbatim>\<open>IndexError\<close>;
  \<^item> with a line after it, the call ends with the exception of \<^verbatim>\<open>_count_indentation\<close>
    on that line if that raises (\<^verbatim>\<open>NameError\<close> on the module's own namespace); else
    with \<^verbatim>\<open>AssertionError\<close> if the \<^verbatim>\<open>assert\<close> is compiled and the line does not start
    with \<^verbatim>\<open>current_depth\<close> spaces; else, with the brace of line 37 before the call
    parenthesis, with \<^verbatim>\<open>TypeError\<close>; else, with the brace in one of the two places
    that leave \<^verbatim>\<open>_add_ansibilized_section(remainder, next_depth)\<close> a call of the
    function, the way the nested call on all the following lines ends;
  \<^item> the same on a stack of \<open>n + 1\<close> activations, where the nested call has a stack of
    \<open>n\<close> and the call does not return if the nested call does not;
  \<^item> in no case does the call return the name bound to the value.
\<close>

theorem valued_line_is_no_leaf:
  assumes "split_name_value line = Inr (name, value)" and "value \<noteq> []"
  shows "add_ansibilized_section m g [line] current_depth = Inl IndexError
   \<and> add_ansibilized_section m g (line # second # rest) current_depth =
       (case count_indentation g second of
          Inl e \<Rightarrow> Inl e
        | Inr next_depth \<Rightarrow>
            if \<not> optimize m \<and> \<not> startswith line (replicate current_depth CHR '' '')
            then Inl AssertionError
            else if line37 m = BraceBeforeCall then Inl TypeError
            else add_ansibilized_section m g (second # rest) next_depth)
   \<and> add_section_fuel (Suc n) m g (line # second # rest) current_depth =
       (case count_indentation g second of
          Inl e \<Rightarrow> Some (Inl e)
        | Inr next_depth \<Rightarrow>
            if \<not> optimize m \<and> \<not> startswith line (replicate current_depth CHR '' '')
            then Some (Inl AssertionError)
            else if line37 m = BraceBeforeCall then Some (Inl TypeError)
            else add_section_fuel n m g (second # rest) next_depth)
   \<and> add_ansibilized_section m g (line # remainder) current_depth
       \<noteq> Inr (PDict [(name, PStr value)])"
proof -
  have one: "add_ansibilized_section m g [line] current_depth = Inl IndexError"
    by simp
  have two: "add_ansibilized_section m g (line # second # rest) current_depth =
       (case count_indentation g second of
          Inl e \<Rightarrow> Inl e
        | Inr next_depth \<Rightarrow>
            if \<not> optimize m \<and> \<not> startswith line (replicate current_depth CHR '' '')
            then Inl AssertionError
            else if line37 m = BraceBeforeCall then Inl TypeError
            else add_ansibilized_section m g (second # rest) next_depth)"
    using assms
    by (simp add: add_section_step del: add_ansibilized_section.simps split: sum.split)
  have three: "add_section_fuel (Suc n) m g (line # second # rest) current_depth =
       (case count_indentation g second of
          Inl e \<Rightarrow> Some (Inl e)
        | Inr next_depth \<Rightarrow>
            if \<not> optimize m \<and> \<not> startswith line (replicate current_depth CHR '' '')
            then Some (Inl AssertionError)
            else if line37 m = BraceBeforeCall then Some (Inl TypeError)
            else add_section_fuel n m g (second # rest) next_depth)"
    using assms
    by (simp add: add_section_fuel_step del: add_section_fuel.simps split: sum.split)
  obtain e where "add_ansibilized_section m g (line # remainder) current_depth = Inl e"
    using add_section_raises by blast
  then have four: "add_ansibilized_section m g (line # remainder) current_depth
       \<noteq> Inr (PDict [(name, PStr value)])"
    by simp
  from one two three four show ?thesis by blast
qed

text \<open>
  C6's theorem for the line \<^verbatim>\<open>"foo:bar"\<close>, alone and followed by \<^verbatim>\<open>"baz:qux"\<close>: on
  the module's own namespace, and with \<^verbatim>\<open>s\<close> bound to the empty string, where the
  nested call is made and a stack of one activation is not enough.
\<close>

theorem valued_line_is_no_leaf_witness:
  "split_name_value ''foo:bar'' = Inr (''foo'', ''bar'') \<and> ''bar'' \<noteq> []
   \<and> add_ansibilized_section default_mode module_globals [''foo:bar''] 0 = Inl IndexError
   \<and> add_ansibilized_section default_mode module_globals [''foo:bar'', ''baz:qux''] 0
       = Inl NameError
   \<and> add_section_fuel 1 default_mode module_globals [''foo:bar'', ''baz:qux''] 0
       = Some (Inl NameError)
   \<and> add_ansibilized_section default_mode (globals_with_s '''') [''foo:bar'', ''baz:qux''] 0
       = add_ansibilized_section default_mode (globals_with_s '''') [''baz:qux''] 0
   \<and> add_section_fuel 1 default_mode (globals_with_s '''') [''foo:bar'', ''baz:qux''] 0 = None
   \<and> add_section_fuel 2 default_mode (globals_with_s '''') [''foo:bar'', ''baz:qux''] 0
       = Some (Inl IndexError)"
proof -
  have h1: "split_name_value ''foo:bar'' = Inr (''foo'', ''bar'')"
    by (simp add: split_name_value_def)
  have h2: "''bar'' \<noteq> []" by simp
  have c1: "count_indentation module_globals ''baz:qux'' = Inl NameError"
    by (simp add: count_indentation_def module_globals_def)
  have c2: "count_indentation (globals_with_s '''') ''baz:qux'' = Inr 0"
    by (simp add: count_indentation_def globals_with_s_def)
  have s: "startswith ''foo:bar'' (replicate 0 CHR '' '')"
    by (simp add: startswith_def)
  have d: "line37 default_mode = BraceAtEnd" "optimize default_mode = False"
    by (simp_all add: default_mode_def)
  have f1: "add_section_fuel (Suc 0) default_mode (globals_with_s '''') [''baz:qux''] 0
      = Some (Inl IndexError)"
    by (simp add: add_section_body_def)
  note own = valued_line_is_no_leaf [OF h1 h2, where m = default_mode and g = module_globals
      and current_depth = 0 and second = "''baz:qux''" and rest = "[]" and n = 0]
  note bound = valued_line_is_no_leaf [OF h1 h2, where m = default_mode
      and g = "globals_with_s ''''" and current_depth = 0 and second = "''baz:qux''"
      and rest = "[]"]
  have "add_section_fuel 1 default_mode module_globals [''foo:bar'', ''baz:qux''] 0
       = Some (Inl NameError)"
    using own c1 by simp
  moreover have "add_section_fuel 1 default_mode (globals_with_s '''') [''foo:bar'', ''baz:qux''] 0
       = None"
    using bound [where n = 0] c2 s d by simp
  moreover have "add_section_fuel 2 default_mode (globals_with_s '''') [''foo:bar'', ''baz:qux''] 0
       = Some (Inl IndexError)"
    using bound [where n = "Suc 0"] c2 s d f1 by (simp add: numeral_2_eq_2)
  moreover have "add_ansibilized_section default_mode (globals_with_s '''')
        [''foo:bar'', ''baz:qux''] 0
       = add_ansibilized_section default_mode (globals_with_s '''') [''baz:qux''] 0"
    using bound [where n = 0] c2 s d by simp
  moreover have "add_ansibilized_section default_mode module_globals [''foo:bar'', ''baz:qux''] 0
       = Inl NameError"
    using own c1 by simp
  moreover have "add_ansibilized_section default_mode module_globals [''foo:bar''] 0
       = Inl IndexError"
    using own by simp
  ultimately show ?thesis using h1 h2 by simp
qed

subsection \<open>The exceptions raised on malformed input (claims C7 and C8)\<close>

text \<open>
  Claim C7, as the specification states it: the input \<^verbatim>\<open>"foo:"\<close>, a branch line with
  nothing after it, makes the parse raise \<^verbatim>\<open>IncompleteSectionError\<close>. The code
  raises the built-in \<^verbatim>\<open>IndexError\<close>.
\<close>

theorem incomplete_section_counterexample:
  "ansibilize_resource default_mode module_globals ''foo:'' = Inl IndexError
   \<and> ansibilize_resource default_mode module_globals ''foo:''
       \<noteq> Inl (CustomError ''IncompleteSectionError'')"
  by (simp add: ansibilize_resource_def)

text \<open>
  Claim C7, amended: the call on a line that has no following line raises
  \<^verbatim>\<open>IndexError\<close>, whatever the line; so does the parse of every text of a single line;
  and no parse ends with an exception of a class of the program's own.
\<close>

theorem last_line_raises_index_error:
  "add_ansibilized_section m g [line] current_depth = Inl IndexError
   \<and> (CHR 0x0A \<notin> set resource_string \<longrightarrow>
        ansibilize_resource m g resource_string = Inl IndexError)
   \<and> ansibilize_resource m g resource_string \<noteq> Inl (CustomError n)"
  using add_section_not_custom
  by (simp add: ansibilize_resource_def split_on_absent)

text \<open>C7's theorem at the input \<^verbatim>\<open>"foo:"\<close>.\<close>

theorem last_line_raises_index_error_witness:
  "add_ansibilized_section default_mode module_globals [''foo:''] 0 = Inl IndexError
   \<and> CHR 0x0A \<notin> set ''foo:''
   \<and> ansibilize_resource default_mode module_globals ''foo:'' = Inl IndexError
   \<and> ansibilize_resource default_mode module_globals ''foo:''
       \<noteq> Inl (CustomError ''IncompleteSectionError'')"
  using last_line_raises_index_error
          [of default_mode module_globals "''foo:''" 0 "''foo:''" "''IncompleteSectionError''"]
  by simp

text \<open>
  Claim C8, as the specification states it: \<^verbatim>\<open>"foo:"\<close> followed by \<^verbatim>\<open>"bar:baz"\<close>
  at the same depth makes the parse raise \<^verbatim>\<open>StructureError\<close>. The code raises
  \<^verbatim>\<open>NameError\<close> there; with \<^verbatim>\<open>s\<close> bound to the empty string both lines pass the
  assertion and the parse ends with the \<^verbatim>\<open>IndexError\<close> of the last line.
\<close>

theorem depth_mismatch_counterexample:
  "ansibilize_resource default_mode module_globals ''foo:\<newline>bar:baz'' = Inl NameError
   \<and> ansibilize_resource default_mode module_globals ''foo:\<newline>bar:baz''
       \<noteq> Inl (CustomError ''StructureError'')
   \<and> ansibilize_resource default_mode (globals_with_s '''') ''foo:\<newline>bar:baz''
       = Inl IndexError"
  by (simp add: ansibilize_resource_def count_indentation_def module_globals_def
      globals_with_s_def startswith_def split_name_value_def default_mode_def)

text \<open>
  Claim C8, amended. No call ends with \<^verbatim>\<open>StructureError\<close> or any other exception of
  a class of the program's own. The depth a call is given is used by one statement, the
  \<^verbatim>\<open>assert\<close> of line 32:
  \<^item> a call on fewer than two lines ends as it does at depth 0;
  \<^item> a call on a line with a line after it ends with the exception of
    \<^verbatim>\<open>_count_indentation\<close> on that next line if that raises; else with
    \<^verbatim>\<open>AssertionError\<close> if the \<^verbatim>\<open>assert\<close> is compiled and the line does not start with
    \<^verbatim>\<open>current_depth\<close> spaces; else as the same call does at depth 0;
  \<^item> under \<^verbatim>\<open>python -O\<close> every call ends as it does at depth 0;
  \<^item> on the module's own namespace no call raises \<^verbatim>\<open>AssertionError\<close>.
\<close>

theorem depth_is_used_by_the_assertion_only:
  "add_ansibilized_section m g resource_string_array current_depth \<noteq> Inl (CustomError n)
   \<and> add_ansibilized_section m g [] current_depth = add_ansibilized_section m g [] 0
   \<and> add_ansibilized_section m g [line] current_depth = add_ansibilized_section m g [line] 0
   \<and> add_ansibilized_section m g (line # second # rest) current_depth =
       (case count_indentation g second of
          Inl e \<Rightarrow> Inl e
        | Inr next_depth \<Rightarrow>
            if \<not> optimize m \<and> \<not> startswith line (replicate current_depth CHR '' '')
            then Inl AssertionError
            else add_ansibilized_section m g (line # second # rest) 0)
   \<and> add_ansibilized_section (m\<lparr>optimize := True\<rparr>) g resource_string_array current_depth
       = add_ansibilized_section (m\<lparr>optimize := True\<rparr>) g resource_string_array 0
   \<and> add_ansibilized_section m module_globals resource_string_array current_depth
       \<noteq> Inl AssertionError"
proof -
  have depth0: "startswith line []" for line
    by (simp add: startswith_def)
  have two: "add_ansibilized_section m g (line # second # rest) current_depth =
       (case count_indentation g second of
          Inl e \<Rightarrow> Inl e
        | Inr next_depth \<Rightarrow>
            if \<not> optimize m \<and> \<not> startswith line (replicate current_depth CHR '' '')
            then Inl AssertionError
            else add_ansibilized_section m g (line # second # rest) 0)" for m line second rest
    by (simp add: add_section_step [of m g line second rest current_depth]
          add_section_step [of m g line second rest 0] depth0
          del: add_ansibilized_section.simps split: sum.split)
  have opt: "add_ansibilized_section (m\<lparr>optimize := True\<rparr>) g resource_string_array current_depth
       = add_ansibilized_section (m\<lparr>optimize := True\<rparr>) g resource_string_array 0"
  proof (cases resource_string_array)
    case Nil
    then show ?thesis by simp
  next
    case outer: (Cons first remainder)
    show ?thesis
    proof (cases remainder)
      case Nil
      with outer show ?thesis by simp
    next
      case (Cons next_line others)
      with outer show ?thesis
        by (simp add: add_section_step [of _ g first next_line others current_depth]
              add_section_step [of _ g first next_line others 0] depth0
              del: add_ansibilized_section.simps split: sum.split)
    qed
  qed
  have own: "add_ansibilized_section m module_globals resource_string_array current_depth
       \<noteq> Inl AssertionError"
    by (cases resource_string_array; cases "tl resource_string_array")
       (auto simp: count_indentation_def module_globals_def)
  from add_section_not_custom [of m g resource_string_array current_depth n]
    two [of m line second rest] opt own
  show ?thesis by simp
qed

subsection \<open>Hidden state (claim C9)\<close>

text \<open>
  Claim C9 says that a parse is a function of its input string alone and observes no
  state outside its arguments. The code reads the global \<^verbatim>\<open>s\<close> in every call of
  \<^verbatim>\<open>_count_indentation\<close>: the parse of one and the same text of three lines ends with
  three different exceptions as \<^verbatim>\<open>s\<close> is unbound, the empty string, or one space. With
  or without \<^verbatim>\<open>-O\<close>, and wherever the brace of line 37 stands, the parse ends with
  \<^verbatim>\<open>NameError\<close> when \<^verbatim>\<open>s\<close> is unbound and with another exception when it is the
  empty string.
\<close>

theorem parse_depends_on_global:
  "ansibilize_resource default_mode module_globals ''a:\<newline>b:c\<newline>d:e'' = Inl NameError
   \<and> ansibilize_resource default_mode (globals_with_s '''') ''a:\<newline>b:c\<newline>d:e''
       = Inl IndexError
   \<and> ansibilize_resource default_mode (globals_with_s '' '') ''a:\<newline>b:c\<newline>d:e''
       = Inl AssertionError
   \<and> ansibilize_resource m module_globals ''a:\<newline>b:c\<newline>d:e'' = Inl NameError
   \<and> ansibilize_resource m (globals_with_s '''') ''a:\<newline>b:c\<newline>d:e'' \<noteq> Inl NameError"
  by (simp add: ansibilize_resource_def count_indentation_def module_globals_def
      globals_with_s_def startswith_def split_name_value_def is_space_def default_mode_def
      split: brace.split)

subsection \<open>Termination (claim C10)\<close>

text \<open>
  Claim C10: the parser terminates on every input, with a recursion depth bounded by the
  number of lines. A call stack of as many activations as the text has lines is enough
  for \<^verbatim>\<open>ansibilize_resource\<close> to finish, with the result of the recursive function;
  \<open>n > 0\<close> activations are enough for every array of at most \<open>n\<close> lines; and one
  activation consults the nested one on the tail of its array and nowhere else, so each
  step of the recursion drops the first line.
\<close>

theorem parser_terminates:
  "ansibilize_resource_fuel (length (split_on (CHR 0x0A) resource_string)) m g resource_string
     = Some (ansibilize_resource m g resource_string)
   \<and> (0 < n \<longrightarrow> length resource_string_array \<le> n \<longrightarrow>
        add_section_fuel n m g resource_string_array current_depth
          = Some (add_ansibilized_section m g resource_string_array current_depth))
   \<and> ((\<forall>k. self (tl resource_string_array) k = self' (tl resource_string_array) k) \<longrightarrow>
        add_section_body self m g resource_string_array current_depth
          = add_section_body self' m g resource_string_array current_depth)"
proof -
  have "0 < length (split_on (CHR 0x0A) resource_string)"
    using split_on_nonempty [of "CHR 0x0A" resource_string] by simp
  then have "ansibilize_resource_fuel (length (split_on (CHR 0x0A) resource_string)) m g
       resource_string
     = Some (ansibilize_resource m g resource_string)"
    by (simp add: ansibilize_resource_fuel_def ansibilize_resource_def fuel_enough)
  then show ?thesis
    using fuel_enough [of n resource_string_array m g current_depth]
      body_tail_only [of self resource_string_array self' m g current_depth]
    by blast
qed

text \<open>
  C10's theorem for the text \<^verbatim>\<open>"a:"\<close>, \<^verbatim>\<open>"b:c"\<close>, and for two nested activations
  that agree on the tail \<^verbatim>\<open>["b:c"]\<close> and differ elsewhere.
\<close>

theorem parser_terminates_witness:
  "ansibilize_resource_fuel (length (split_on (CHR 0x0A) ''a:\<newline>b:c'')) default_mode
       (globals_with_s '''') ''a:\<newline>b:c''
     = Some (ansibilize_resource default_mode (globals_with_s '''') ''a:\<newline>b:c'')
   \<and> (0::nat) < 2 \<and> length [''a:'', ''b:c''] \<le> 2
   \<and> add_section_fuel 2 default_mode (globals_with_s '''') [''a:'', ''b:c''] 0
        = Some (add_ansibilized_section default_mode (globals_with_s '''') [''a:'', ''b:c''] 0)
   \<and> (\<forall>k. add_section_fuel 1 default_mode (globals_with_s '''') (tl [''a:'', ''b:c'']) k
             = add_section_fuel 2 default_mode (globals_with_s '''') (tl [''a:'', ''b:c'']) k)
   \<and> add_section_body (add_section_fuel 1 default_mode (globals_with_s ''''))
          default_mode (globals_with_s '''') [''a:'', ''b:c''] 0
        = add_section_body (add_section_fuel 2 default_mode (globals_with_s ''''))
            default_mode (globals_with_s '''') [''a:'', ''b:c''] 0"
proof -
  have h1: "(0::nat) < 2" by simp
  have h2: "length [''a:'', ''b:c''] \<le> 2" by simp
  have h3: "\<forall>k. add_section_fuel 1 default_mode (globals_with_s '''') (tl [''a:'', ''b:c'']) k
             = add_section_fuel 2 default_mode (globals_with_s '''') (tl [''a:'', ''b:c'']) k"
    by (simp add: add_section_body_def numeral_2_eq_2)
  from parser_terminates
         [where resource_string = "''a:\<newline>b:c''" and m = default_mode
            and g = "globals_with_s ''''" and n = 2
            and resource_string_array = "[''a:'', ''b:c'']" and current_depth = 0
            and self = "add_section_fuel 1 default_mode (globals_with_s '''')"
            and self' = "add_section_fuel 2 default_mode (globals_with_s '''')"]
       h1 h2 h3
  show ?thesis by blast
qed

end
